theory Spec2Isabelle
  imports Main
begin

text \<open>
  \<^verbatim>\<open>main.py\<close> is a Streamlit page, run from top to bottom at every interaction. It has two
  handlers: the one of the button \<^verbatim>\<open>Process URLs\<close> (lines 67-116), which fetches the pages,
  splits them, builds a FAISS index and saves it in the folder \<^verbatim>\<open>faiss_index\<close>, and the one
  of the question field (lines 121-143), which loads the saved index and asks a
  question-answering chain. Both are modelled here as functions on a world that holds the
  index folder and a log of what the run showed and called; the function
  \<^verbatim>\<open>fallback_bs4_loader\<close> is modelled with its loop. The libraries (the loaders, \<^verbatim>\<open>requests\<close>,
  BeautifulSoup, the text splitter, the embeddings, FAISS, the chain) are parameters. The
  set-up of the page (lines 14-22) and the construction of the language model (line 119)
  lie outside the handlers: the model is a parameter of the query handler.
\<close>

section \<open>Python strings\<close>

text \<open>
  A Python \<^verbatim>\<open>str\<close> is a sequence of Unicode code points, so it is modelled as a list of
  natural numbers. \<open>U\<close> turns an ASCII literal into such a string.
\<close>

type_synonym ustring = "nat list"

abbreviation U :: "string \<Rightarrow> ustring" where
  "U s \<equiv> map of_char s"

text \<open>
  The code points \<^verbatim>\<open>str.isspace\<close> accepts, which are the ones \<^verbatim>\<open>str.strip()\<close> removes
  (CPython's whitespace table: TAB..CR, FS..US, SPACE, NEL, NBSP and the Unicode spaces).
\<close>

definition isspace :: "nat \<Rightarrow> bool" where
  "isspace c \<longleftrightarrow>
     (9 \<le> c \<and> c \<le> 13) \<or> (28 \<le> c \<and> c \<le> 32) \<or> c = 133 \<or> c = 160 \<or> c = 5760 \<or>
     (8192 \<le> c \<and> c \<le> 8202) \<or> c = 8232 \<or> c = 8233 \<or> c = 8239 \<or> c = 8287 \<or> c = 12288"

text \<open>\<^verbatim>\<open>s.strip()\<close>: whitespace removed from both ends.\<close>

definition strip :: "ustring \<Rightarrow> ustring" where
  "strip s = rev (dropWhile isspace (rev (dropWhile isspace s)))"

text \<open>\<^verbatim>\<open>sep.join(xs)\<close>.\<close>

fun join :: "ustring \<Rightarrow> ustring list \<Rightarrow> ustring" where
  "join sep [] = []"
| "join sep [x] = x"
| "join sep (x # y # ys) = x @ sep @ join sep (y # ys)"

text \<open>\<^verbatim>\<open>str(n)\<close> of an integer, as an f-string formats it.\<close>

fun str_nat :: "nat \<Rightarrow> ustring" where
  "str_nat n = (if n < 10 then [48 + n] else str_nat (n div 10) @ [48 + n mod 10])"

declare str_nat.simps [simp del]

definition str_int :: "int \<Rightarrow> ustring" where
  "str_int i = (if i < 0 then 45 # str_nat (nat (- i)) else str_nat (nat i))"

section \<open>Data\<close>

text \<open>An exception is kept as the text \<^verbatim>\<open>str(e)\<close> that the messages interpolate.\<close>

type_synonym exc = ustring

text \<open>
  \<^verbatim>\<open>Document(page_content=..., metadata={...})\<close>; the metadata dictionary is an association
  list.
\<close>

record document =
  page_content :: ustring
  metadata :: "(ustring \<times> ustring) list"

text \<open>What the handler reads of the \<^verbatim>\<open>requests\<close> response: \<^verbatim>\<open>res.status_code\<close>, \<^verbatim>\<open>res.text\<close>.\<close>

record response =
  status_code :: int
  res_text :: ustring

text \<open>The arguments of \<^verbatim>\<open>RecursiveCharacterTextSplitter(...)\<close>.\<close>

record splitter_config =
  separators :: "ustring list"
  chunk_size :: int
  chunk_overlap :: int

section \<open>Constants of the script\<close>

definition faiss_folder :: ustring where
  "faiss_folder = U ''faiss_index''"

definition headers :: "(ustring \<times> ustring) list" where
  "headers =
     [(U ''User-Agent'',
       U ''Mozilla/5.0 (Windows NT 10.0; Win64; x64) '' @
       U ''AppleWebKit/537.36 (KHTML, like Gecko) '' @
       U ''Chrome/120.0.0.0 Safari/537.36'')]"

text \<open>The line feed, \<^verbatim>\<open>"\n"\<close>.\<close>

definition newline :: ustring where
  "newline = [10]"

definition text_splitter :: splitter_config where
  "text_splitter =
     \<lparr>separators = [newline @ newline, newline, U ''.'', U '',''],
      chunk_size = 1000, chunk_overlap = 100\<rparr>"

section \<open>What a run does: messages, external calls, failures\<close>

text \<open>
  Every Streamlit output of the script, one constructor per call site (line numbers of
  \<^verbatim>\<open>main.py\<close>); \<open>render\<close> below gives the widget and the text.
\<close>

datatype ui_msg =
    Failed_to_fetch ustring int      \<comment> \<open>51\<close>
  | Loaded_bs4 ustring               \<comment> \<open>58\<close>
  | No_readable_text ustring         \<comment> \<open>60\<close>
  | Error_fetching ustring exc       \<comment> \<open>62\<close>
  | No_valid_url                     \<comment> \<open>69\<close>
  | Loading_data                     \<comment> \<open>71\<close>
  | Loader_failed exc                \<comment> \<open>88\<close>
  | Using_fallback                   \<comment> \<open>92\<close>
  | Loaded_docs nat                  \<comment> \<open>95\<close>
  | No_content                       \<comment> \<open>98\<close>
  | Number_of_split_docs nat         \<comment> \<open>107\<close>
  | Generating_embeddings            \<comment> \<open>110\<close>
  | Index_saved                      \<comment> \<open>116\<close>
  | Index_not_found                  \<comment> \<open>124\<close>
  | Searching                        \<comment> \<open>126\<close>
  | Answer ustring                   \<comment> \<open>142\<close>
  | Sources ustring                  \<comment> \<open>143\<close>

datatype widget =
  St_error | St_warning | St_info | St_success | St_write | Placeholder_info | Placeholder_success

text \<open>The pictographs of the messages, as code points.\<close>

definition warning_sign :: ustring where "warning_sign = [9888, 65039]"
definition check_mark :: ustring where "check_mark = [9989]"
definition arrows_sign :: ustring where "arrows_sign = [128260]"
definition cross_mark :: ustring where "cross_mark = [10060]"
definition gear_sign :: ustring where "gear_sign = [9881, 65039]"
definition magnifier_sign :: ustring where "magnifier_sign = [128269]"

fun render :: "ui_msg \<Rightarrow> widget \<times> ustring list" where
  "render (Failed_to_fetch url code) =
     (St_warning,
      [warning_sign @ U '' Failed to fetch '' @ url @ U '' (status '' @ str_int code @ U '')''])"
| "render (Loaded_bs4 url) =
     (St_success, [check_mark @ U '' Loaded '' @ url @ U '' (BeautifulSoup)''])"
| "render (No_readable_text url) =
     (St_warning, [warning_sign @ U '' No readable text found at '' @ url])"
| "render (Error_fetching url e) =
     (St_error, [U ''Error fetching '' @ url @ U '': '' @ e])"
| "render No_valid_url = (St_error, [U ''Please enter at least one valid URL.''])"
| "render Loading_data = (Placeholder_info, [arrows_sign @ U '' Loading data from URLs...''])"
| "render (Loader_failed e) =
     (St_warning, [warning_sign @ U '' Unstructured loader failed: '' @ e])"
| "render Using_fallback = (St_info, [U ''Using BeautifulSoup fallback...''])"
| "render (Loaded_docs n) = (St_write, [U ''Loaded docs:'', str_nat n])"
| "render No_content =
     (St_error,
      [cross_mark @ U '' No content could be loaded. Check your URLs or site accessibility.''])"
| "render (Number_of_split_docs n) = (St_write, [U ''Number of split docs:'', str_nat n])"
| "render Generating_embeddings =
     (Placeholder_info, [gear_sign @ U '' Generating embeddings and building FAISS index...''])"
| "render Index_saved =
     (Placeholder_success,
      [check_mark @ U '' FAISS index saved locally at '' @ [39] @ faiss_folder @ [39] @ U ''!''])"
| "render Index_not_found =
     (St_error, [U ''FAISS index not found. Please process URLs first.''])"
| "render Searching = (St_info, [magnifier_sign @ U '' Searching for answers...''])"
| "render (Answer a) = (St_write, [U ''**Answer:**'', a])"
| "render (Sources s) = (St_write, [U ''**Sources:**'', s])"

text \<open>The calls into the libraries, with the URL arguments of the two fetchers.\<close>

datatype call =
    Unstructured_load "ustring list"   \<comment> \<open>76-86: import, constructor and \<^verbatim>\<open>loader.load()\<close>\<close>
  | Requests_get ustring               \<comment> \<open>49\<close>
  | Bs4_parse                          \<comment> \<open>54-55\<close>
  | Split_documents                    \<comment> \<open>101-106\<close>
  | Openai_embeddings                  \<comment> \<open>111, 129\<close>
  | From_documents                     \<comment> \<open>112\<close>
  | Save_local                         \<comment> \<open>115\<close>
  | Load_local                         \<comment> \<open>130\<close>
  | Qa_chain ustring                   \<comment> \<open>136-141\<close>

text \<open>
  The log of a run: each message shown, each library call made, and each exception a
  library call raised (caught or not).
\<close>

datatype event = Shown ui_msg | Called call | Failed call exc

text \<open>
  The state the script acts on: the contents of the folder \<^verbatim>\<open>faiss_index\<close> (\<open>None\<close> when the
  folder does not exist, so \<^verbatim>\<open>os.path.exists\<close> is \<open>folder w \<noteq> None\<close>) and the log so far.
\<close>

record 'f world =
  folder :: "'f option"
  trace :: "event list"

definition shown :: "ui_msg \<Rightarrow> 'f world \<Rightarrow> 'f world" where
  "shown m w = w\<lparr>trace := trace w @ [Shown m]\<rparr>"

definition called :: "call \<Rightarrow> 'f world \<Rightarrow> 'f world" where
  "called c w = w\<lparr>trace := trace w @ [Called c]\<rparr>"

definition failed :: "call \<Rightarrow> exc \<Rightarrow> 'f world \<Rightarrow> 'f world" where
  "failed c e w = w\<lparr>trace := trace w @ [Called c, Failed c e]\<rparr>"

section \<open>The libraries\<close>

text \<open>
  The libraries are parameters of the model. A call returns \<open>Inr\<close> its value or \<open>Inl\<close> the
  exception it raises. What the network, the services and the disk answer may differ from
  one call to the next, so these calls also receive the log up to the call. \<open>'e\<close> is the
  embeddings object, \<open>'v\<close> the vector store, \<open>'f\<close> the contents of the index folder, \<open>'l\<close> the
  language model. \<open>save_local\<close> returns the folder it leaves behind together with the
  exception, if it raises.
\<close>

record ('e, 'v, 'f, 'l) env =
  unstructured_load :: "event list \<Rightarrow> ustring list \<Rightarrow> (ustring \<times> ustring) list \<Rightarrow> exc + document list"
  requests_get :: "event list \<Rightarrow> ustring \<Rightarrow> (ustring \<times> ustring) list \<Rightarrow> nat \<Rightarrow> exc + response"
  bs4_paragraphs :: "ustring \<Rightarrow> exc + ustring list"
  split_documents :: "splitter_config \<Rightarrow> document list \<Rightarrow> exc + document list"
  openai_embeddings :: "event list \<Rightarrow> exc + 'e"
  from_documents :: "event list \<Rightarrow> document list \<Rightarrow> 'e \<Rightarrow> exc + 'v"
  save_local :: "event list \<Rightarrow> 'v \<Rightarrow> 'f option \<Rightarrow> exc option \<times> 'f option"
  load_local :: "event list \<Rightarrow> 'f \<Rightarrow> 'e \<Rightarrow> exc + 'v"
  qa_chain :: "event list \<Rightarrow> 'l \<Rightarrow> 'v \<Rightarrow> ustring \<Rightarrow> exc + ustring \<times> ustring"

section \<open>Sidebar URL inputs (lines 24-28)\<close>

text \<open>\<open>text_input i\<close> is the value of the widget \<^verbatim>\<open>URL i\<close>.\<close>

definition sidebar_urls :: "(nat \<Rightarrow> ustring) \<Rightarrow> ustring list" where
  "sidebar_urls text_input =
     concat (map (\<lambda>i. let url = text_input i in if strip url \<noteq> [] then [strip url] else [])
       [1..<4])"

section \<open>Fallback loader (lines 34-63)\<close>

text \<open>
  One iteration of the loop over \<open>urls\<close>: the \<^verbatim>\<open>try\<close> body, with the \<^verbatim>\<open>except Exception\<close>
  clause as the \<open>Inl\<close> branches.
\<close>

definition fallback_body ::
  "('e, 'v, 'f, 'l) env \<Rightarrow> ustring \<Rightarrow> document list \<Rightarrow> 'f world \<Rightarrow> document list \<times> 'f world" where
  "fallback_body env url docs w =
     (case requests_get env (trace w) url headers 10 of
        Inl e \<Rightarrow> (docs, shown (Error_fetching url e) (failed (Requests_get url) e w))
      | Inr res \<Rightarrow>
          (let w1 = called (Requests_get url) w in
           if status_code res \<noteq> 200
           then (docs, shown (Failed_to_fetch url (status_code res)) w1)
           else
            (case bs4_paragraphs env (res_text res) of
               Inl e \<Rightarrow> (docs, shown (Error_fetching url e) (failed Bs4_parse e w1))
             | Inr ps \<Rightarrow>
                 (let w2 = called Bs4_parse w1;
                      text = join (U '' '') ps
                  in if strip text \<noteq> []
                     then (docs @ [\<lparr>page_content = text, metadata = [(U ''source'', url)]\<rparr>],
                           shown (Loaded_bs4 url) w2)
                     else (docs, shown (No_readable_text url) w2)))))"

fun fallback_loop ::
  "('e, 'v, 'f, 'l) env \<Rightarrow> ustring list \<Rightarrow> document list \<Rightarrow> 'f world \<Rightarrow> document list \<times> 'f world" where
  "fallback_loop env [] docs w = (docs, w)"
| "fallback_loop env (url # urls) docs w =
     (case fallback_body env url docs w of (docs', w') \<Rightarrow> fallback_loop env urls docs' w')"

definition fallback_bs4_loader ::
  "('e, 'v, 'f, 'l) env \<Rightarrow> ustring list \<Rightarrow> 'f world \<Rightarrow> document list \<times> 'f world" where
  "fallback_bs4_loader env urls w = fallback_loop env urls [] w"

section \<open>The Process URLs handler (lines 67-116)\<close>

text \<open>
  Lines 71-88, step 1: the structured loader inside its \<^verbatim>\<open>try\<close>. The import, the constructor
  and \<^verbatim>\<open>loader.load()\<close> are one library call; an exception leaves \<open>data\<close> empty and shows
  a warning.
\<close>

definition try_unstructured_loader ::
  "('e, 'v, 'f, 'l) env \<Rightarrow> ustring list \<Rightarrow> 'f world \<Rightarrow> document list \<times> 'f world" where
  "try_unstructured_loader env urls w =
     (let w0 = shown Loading_data w
      in (case unstructured_load env (trace w0) urls headers of
            Inl e \<Rightarrow> ([], shown (Loader_failed e) (failed (Unstructured_load urls) e w0))
          | Inr d \<Rightarrow> (d, called (Unstructured_load urls) w0)))"

text \<open>Lines 71-93: step 1, then step 2, the fallback when \<open>data\<close> is empty.\<close>

definition load_data ::
  "('e, 'v, 'f, 'l) env \<Rightarrow> ustring list \<Rightarrow> 'f world \<Rightarrow> document list \<times> 'f world" where
  "load_data env urls w =
     (case try_unstructured_loader env urls w of
        (data, w1) \<Rightarrow>
          if data = [] then fallback_bs4_loader env urls (shown Using_fallback w1)
          else (data, w1))"

text \<open>
  Lines 100-116: split, embed, build, save. Nothing here is inside a \<^verbatim>\<open>try\<close>: an exception
  of a library ends the handler, and is returned as \<open>Some e\<close>.
\<close>

definition index_documents ::
  "('e, 'v, 'f, 'l) env \<Rightarrow> document list \<Rightarrow> 'f world \<Rightarrow> exc option \<times> 'f world" where
  "index_documents env data w =
     (case split_documents env text_splitter data of
        Inl e \<Rightarrow> (Some e, failed Split_documents e w)
      | Inr docs \<Rightarrow>
          (let w1 = shown (Number_of_split_docs (length docs)) (called Split_documents w);
               w2 = shown Generating_embeddings w1
           in (case openai_embeddings env (trace w2) of
                 Inl e \<Rightarrow> (Some e, failed Openai_embeddings e w2)
               | Inr embeddings \<Rightarrow>
                   (let w3 = called Openai_embeddings w2
                    in (case from_documents env (trace w3) docs embeddings of
                          Inl e \<Rightarrow> (Some e, failed From_documents e w3)
                        | Inr vectorstore \<Rightarrow>
                            (let w4 = called From_documents w3;
                                 saved = save_local env (trace w4) vectorstore (folder w4);
                                 w5 = w4\<lparr>folder := snd saved\<rparr>
                             in (case fst saved of
                                   Some e \<Rightarrow> (Some e, failed Save_local e w5)
                                 | None \<Rightarrow> (None, shown Index_saved (called Save_local w5)))))))))"

definition process_url_handler ::
  "('e, 'v, 'f, 'l) env \<Rightarrow> ustring list \<Rightarrow> 'f world \<Rightarrow> exc option \<times> 'f world" where
  "process_url_handler env urls w =
     (if urls = [] then (None, shown No_valid_url w)
      else
        (case load_data env urls w of
           (data, w1) \<Rightarrow>
             (let w2 = shown (Loaded_docs (length data)) w1
              in if length data = 0 then (None, shown No_content w2)
                 else index_documents env data w2)))"

section \<open>The query handler (lines 121-143)\<close>

text \<open>\<open>llm\<close> is the global of line 119.\<close>

definition query_handler ::
  "('e, 'v, 'f, 'l) env \<Rightarrow> 'l \<Rightarrow> ustring \<Rightarrow> 'f world \<Rightarrow> exc option \<times> 'f world" where
  "query_handler env llm query w =
     (if query = [] then (None, w)
      else
        (case folder w of
           None \<Rightarrow> (None, shown Index_not_found w)
         | Some f \<Rightarrow>
             (let w1 = shown Searching w
              in (case openai_embeddings env (trace w1) of
                    Inl e \<Rightarrow> (Some e, failed Openai_embeddings e w1)
                  | Inr embeddings \<Rightarrow>
                      (let w2 = called Openai_embeddings w1
                       in (case load_local env (trace w2) f embeddings of
                             Inl e \<Rightarrow> (Some e, failed Load_local e w2)
                           | Inr vectorstore \<Rightarrow>
                               (let w3 = called Load_local w2
                                in (case qa_chain env (trace w3) llm vectorstore query of
                                      Inl e \<Rightarrow> (Some e, failed (Qa_chain query) e w3)
                                    | Inr result \<Rightarrow>
                                        (None,
                                         shown (Sources (snd result))
                                           (shown (Answer (fst result))
                                              (called (Qa_chain query) w3)))))))))))"

section \<open>Observations on a log\<close>

text \<open>The events of a run that started in \<open>w\<close> and ended in \<open>w'\<close>.\<close>

definition new_events :: "'f world \<Rightarrow> 'f world \<Rightarrow> event list" where
  "new_events w w' = drop (length (trace w)) (trace w')"

text \<open>The URLs \<^verbatim>\<open>requests.get\<close> was called with, in order.\<close>

fun gets :: "event list \<Rightarrow> ustring list" where
  "gets [] = []"
| "gets (Called (Requests_get url) # es) = url # gets es"
| "gets (e # es) = gets es"

text \<open>The URLs named by the per-URL status messages of the fallback loader, in order.\<close>

fun reported :: "event list \<Rightarrow> ustring list" where
  "reported [] = []"
| "reported (Shown (Failed_to_fetch url code) # es) = url # reported es"
| "reported (Shown (Loaded_bs4 url) # es) = url # reported es"
| "reported (Shown (No_readable_text url) # es) = url # reported es"
| "reported (Shown (Error_fetching url e) # es) = url # reported es"
| "reported (e # es) = reported es"

text \<open>The URLs reported as loaded by the fallback loader, in order.\<close>

fun loaded :: "event list \<Rightarrow> ustring list" where
  "loaded [] = []"
| "loaded (Shown (Loaded_bs4 url) # es) = url # loaded es"
| "loaded (e # es) = loaded es"

text \<open>The fallback at work: its announcement (line 92) and its requests (line 49).\<close>

fun fallback_event :: "event \<Rightarrow> bool" where
  "fallback_event (Shown Using_fallback) = True"
| "fallback_event (Called (Requests_get url)) = True"
| "fallback_event e = False"

text \<open>The calls of chunking, embedding, index construction and persistence.\<close>

fun indexing :: "event \<Rightarrow> bool" where
  "indexing (Called Split_documents) = True"
| "indexing (Called Openai_embeddings) = True"
| "indexing (Called From_documents) = True"
| "indexing (Called Save_local) = True"
| "indexing e = False"

text \<open>The calls that write the index folder.\<close>

fun saving :: "event \<Rightarrow> bool" where
  "saving (Called Save_local) = True"
| "saving e = False"

text \<open>The calls of the two fetchers (lines 71-93), for classifying what that stage logs.\<close>

fun fetch_call :: "call \<Rightarrow> bool" where
  "fetch_call (Unstructured_load urls) = True"
| "fetch_call (Requests_get url) = True"
| "fetch_call Bs4_parse = True"
| "fetch_call c = False"

fun fetch_stage :: "event \<Rightarrow> bool" where
  "fetch_stage (Shown m) = True"
| "fetch_stage (Called c) = fetch_call c"
| "fetch_stage (Failed c e) = fetch_call c"

section \<open>Concrete runs\<close>

text \<open>
  Worlds and libraries for running the handlers on concrete inputs: a machine without an
  index and one with an index, libraries that all succeed, and libraries where one call
  fails.
\<close>

definition w_fresh :: "unit world" where
  "w_fresh = \<lparr>folder = None, trace = []\<rparr>"

definition w_indexed :: "unit world" where
  "w_indexed = \<lparr>folder = Some (), trace = []\<rparr>"

definition doc_a :: document where
  "doc_a = \<lparr>page_content = U ''Some text.'', metadata = [(U ''source'', U ''https://example.com/a'')]\<rparr>"

definition env_ok :: "(unit, unit, unit, unit) env" where
  "env_ok =
     \<lparr>unstructured_load = (\<lambda>h urls hd. Inr [doc_a]),
      requests_get = (\<lambda>h url hd t. Inl (U ''timeout'')),
      bs4_paragraphs = (\<lambda>t. Inr []),
      split_documents = (\<lambda>c ds. Inr ds),
      openai_embeddings = (\<lambda>h. Inr ()),
      from_documents = (\<lambda>h ds e. Inr ()),
      save_local = (\<lambda>h v f. (None, Some ())),
      load_local = (\<lambda>h f e. Inr ()),
      qa_chain = (\<lambda>h l v q. Inr (U ''answer'', U ''https://example.com/a''))\<rparr>"

definition env_down :: "(unit, unit, unit, unit) env" where
  "env_down = env_ok\<lparr>unstructured_load := (\<lambda>h urls hd. Inl (U ''no loader''))\<rparr>"


definition env_no_answer :: "(unit, unit, unit, unit) env" where
  "env_no_answer = env_ok\<lparr>qa_chain := (\<lambda>h l v q. Inl (U ''service unavailable''))\<rparr>"

definition res_hello :: response where
  "res_hello = \<lparr>status_code = 200, res_text = U ''<p>Hello.</p><p>World.</p>''\<rparr>"

definition res_missing :: response where
  "res_missing = \<lparr>status_code = 404, res_text = U ''<p>Not Found</p>''\<rparr>"

definition env_hello :: "(unit, unit, unit, unit) env" where
  "env_hello =
     env_down\<lparr>requests_get := (\<lambda>h url hd t. Inr res_hello),
              bs4_paragraphs := (\<lambda>t. Inr [U ''Hello.'', U ''World.''])\<rparr>"

definition res_broken :: response where
  "res_broken = \<lparr>status_code = 200, res_text = U ''<p''\<rparr>"

definition res_blank :: response where
  "res_blank = \<lparr>status_code = 200, res_text = U ''<p> </p>''\<rparr>"

definition url_a :: ustring where "url_a = U ''https://example.com/a''"
definition url_b :: ustring where "url_b = U ''https://example.com/b''"
definition url_c :: ustring where "url_c = U ''https://example.com/c''"
definition url_d :: ustring where "url_d = U ''https://example.com/d''"
definition url_e :: ustring where "url_e = U ''https://example.com/e''"

definition env_failing :: "(unit, unit, unit, unit) env" where
  "env_failing =
     env_down\<lparr>requests_get :=
                (\<lambda>h url hd t.
                   if url = url_a then Inl (U ''timeout'')
                   else if url = url_b then Inr res_missing
                   else if url = url_c then Inr res_broken
                   else if url = url_d then Inr res_blank
                   else Inr res_hello),
              bs4_paragraphs :=
                (\<lambda>t. if t = res_text res_broken then Inl (U ''parse error'')
                     else if t = res_text res_blank then Inr [U '' '']
                     else Inr [U ''Hello.'', U ''World.''])\<rparr>"





definition blank_inputs :: "nat \<Rightarrow> ustring" where
  "blank_inputs i = (if i = 2 then U ''  '' else [])"

definition padded_inputs :: "nat \<Rightarrow> ustring" where
  "padded_inputs i = (if i = 1 then U '' https://example.com/a '' else [])"

section \<open>Logs\<close>

lemma trace_shown [simp]: "trace (shown m w) = trace w @ [Shown m]"
  by (simp add: shown_def)

lemma folder_shown [simp]: "folder (shown m w) = folder w"
  by (simp add: shown_def)

lemma trace_called [simp]: "trace (called c w) = trace w @ [Called c]"
  by (simp add: called_def)

lemma folder_called [simp]: "folder (called c w) = folder w"
  by (simp add: called_def)

lemma trace_failed [simp]: "trace (failed c e w) = trace w @ [Called c, Failed c e]"
  by (simp add: failed_def)

lemma folder_failed [simp]: "folder (failed c e w) = folder w"
  by (simp add: failed_def)

lemma gets_append [simp]: "gets (xs @ ys) = gets xs @ gets ys"
  by (induction xs rule: gets.induct) simp_all

lemma reported_append [simp]: "reported (xs @ ys) = reported xs @ reported ys"
  by (induction xs rule: reported.induct) simp_all

lemma loaded_append [simp]: "loaded (xs @ ys) = loaded xs @ loaded ys"
  by (induction xs rule: loaded.induct) simp_all

lemma new_events_same [simp]: "new_events w w = []"
  by (simp add: new_events_def)

lemma new_events_eq: "trace w' = trace w @ evs \<Longrightarrow> new_events w w' = evs"
  by (simp add: new_events_def)

lemma new_events_trans:
  assumes "trace w1 = trace w0 @ new_events w0 w1" and "trace w2 = trace w1 @ new_events w1 w2"
  shows "new_events w0 w2 = new_events w0 w1 @ new_events w1 w2"
proof -
  have "trace w2 = trace w0 @ (new_events w0 w1 @ new_events w1 w2)"
    using assms by simp
  then show ?thesis by (rule new_events_eq)
qed

lemma trace_trans:
  assumes "trace w1 = trace w0 @ new_events w0 w1" and "trace w2 = trace w1 @ new_events w1 w2"
  shows "trace w2 = trace w0 @ new_events w0 w2"
proof -
  have "trace w2 = trace w0 @ (new_events w0 w1 @ new_events w1 w2)"
    using assms by simp
  moreover from this have "new_events w0 w2 = new_events w0 w1 @ new_events w1 w2"
    by (rule new_events_eq)
  ultimately show ?thesis by simp
qed

lemma trace_shown_new: "trace (shown m w) = trace w @ new_events w (shown m w)"
  by (simp add: new_events_def)

text \<open>What the fetchers log is neither indexing nor a failure of the index construction.\<close>

lemma fetch_stage_not_indexing: "fetch_stage ev \<Longrightarrow> \<not> indexing ev"
  by (induction ev rule: indexing.induct) simp_all


lemma fetch_stage_filter_indexing: "list_all fetch_stage evs \<Longrightarrow> filter indexing evs = []"
  by (induction evs) (simp_all add: fetch_stage_not_indexing)



section \<open>Strings\<close>

lemma strip_empty_iff: "strip s = [] \<longleftrightarrow> list_all isspace s"
proof
  assume e: "strip s = []"
  show "list_all isspace s"
  proof (rule ccontr)
    assume "\<not> list_all isspace s"
    then have n: "dropWhile isspace s \<noteq> []"
      by (simp add: list_all_iff)
    then have "\<not> isspace (hd (dropWhile isspace s))"
      by (rule hd_dropWhile)
    moreover have "hd (dropWhile isspace s) \<in> set (rev (dropWhile isspace s))"
      using n by simp
    moreover have "list_all isspace (rev (dropWhile isspace s))"
      using e by (simp add: strip_def list_all_iff)
    ultimately show False
      by (simp add: list_all_iff)
  qed
next
  assume "list_all isspace s"
  then have "dropWhile isspace s = []"
    by (simp add: list_all_iff)
  then show "strip s = []"
    by (auto simp add: strip_def dest: set_dropWhileD)
qed

lemma strip_last: "strip s \<noteq> [] \<Longrightarrow> \<not> isspace (last (strip s))"
  by (simp add: strip_def last_rev hd_dropWhile)

lemma strip_hd: "strip s \<noteq> [] \<Longrightarrow> \<not> isspace (hd (strip s))"
  by (metis append_is_Nil_conv hd_dropWhile last_appendR last_rev
    rev.simps(1) rev_rev_ident strip_def takeWhile_dropWhile_id)

lemma upt_1_4: "[1..<4] = [1, 2, 3]"
  by (simp add: upt_rec)

lemma sidebar_urls_unfold:
  "sidebar_urls g =
     (if strip (g 1) \<noteq> [] then [strip (g 1)] else []) @
     (if strip (g 2) \<noteq> [] then [strip (g 2)] else []) @
     (if strip (g 3) \<noteq> [] then [strip (g 3)] else [])"
  unfolding sidebar_urls_def upt_1_4 by (simp add: Let_def)

section \<open>The fallback loader\<close>

text \<open>One iteration of the loop.\<close>

lemma fallback_body_trace:
  "trace (snd (fallback_body env url docs w)) =
     trace w @ new_events w (snd (fallback_body env url docs w))"
  by (simp add: fallback_body_def Let_def new_events_def split: sum.splits)

lemma fallback_body_folder: "folder (snd (fallback_body env url docs w)) = folder w"
  by (simp add: fallback_body_def Let_def split: sum.splits)

lemma fallback_body_stage:
  "list_all fetch_stage (new_events w (snd (fallback_body env url docs w)))"
  by (simp add: fallback_body_def Let_def new_events_def split: sum.splits)

lemma fallback_body_fallback:
  "filter fallback_event (new_events w (snd (fallback_body env url docs w))) =
     [Called (Requests_get url)]"
  by (simp add: fallback_body_def Let_def new_events_def split: sum.splits)

lemma fallback_body_gets: "gets (new_events w (snd (fallback_body env url docs w))) = [url]"
  by (simp add: fallback_body_def Let_def new_events_def split: sum.splits)

lemma fallback_body_reported:
  "reported (new_events w (snd (fallback_body env url docs w))) = [url]"
  by (simp add: fallback_body_def Let_def new_events_def split: sum.splits)

lemma fallback_body_docs:
  "map metadata (fst (fallback_body env url docs w)) =
     map metadata docs @
     map (\<lambda>u. [(U ''source'', u)]) (loaded (new_events w (snd (fallback_body env url docs w))))"
  by (simp add: fallback_body_def Let_def new_events_def split: sum.splits)

text \<open>The whole loop, by induction on the URLs still to fetch.\<close>

lemma fallback_loop_trace:
  "trace (snd (fallback_loop env urls docs w)) =
     trace w @ new_events w (snd (fallback_loop env urls docs w))"
proof (induction urls arbitrary: docs w)
  case Nil
  show ?case by simp
next
  case (Cons url urls)
  obtain docs' w' where b: "fallback_body env url docs w = (docs', w')"
    by (cases "fallback_body env url docs w")
  have t: "trace w' = trace w @ new_events w w'"
    using fallback_body_trace [of env url docs w] b by simp
  have "trace (snd (fallback_loop env urls docs' w')) =
      trace w @ (new_events w w' @ new_events w' (snd (fallback_loop env urls docs' w')))"
    using Cons.IH [of docs' w'] t by simp
  then have "trace (snd (fallback_loop env (url # urls) docs w)) =
      trace w @ (new_events w w' @ new_events w' (snd (fallback_loop env urls docs' w')))"
    using b by simp
  then show ?case by (simp add: new_events_def)
qed

lemma fallback_loop_step:
  assumes "fallback_body env url docs w = (docs', w')"
  shows "new_events w (snd (fallback_loop env (url # urls) docs w)) =
     new_events w w' @ new_events w' (snd (fallback_loop env urls docs' w'))"
proof -
  have "trace w' = trace w @ new_events w w'"
    using fallback_body_trace [of env url docs w] assms by simp
  moreover have "trace (snd (fallback_loop env urls docs' w')) =
      trace w' @ new_events w' (snd (fallback_loop env urls docs' w'))"
    by (rule fallback_loop_trace)
  ultimately have "new_events w (snd (fallback_loop env urls docs' w')) =
      new_events w w' @ new_events w' (snd (fallback_loop env urls docs' w'))"
    by (rule new_events_trans)
  then show ?thesis using assms by simp
qed

lemma fallback_loop_folder: "folder (snd (fallback_loop env urls docs w)) = folder w"
proof (induction urls arbitrary: docs w)
  case Nil
  show ?case by simp
next
  case (Cons url urls)
  obtain docs' w' where b: "fallback_body env url docs w = (docs', w')"
    by (cases "fallback_body env url docs w")
  have "folder w' = folder w"
    using fallback_body_folder [of env url docs w] b by simp
  with Cons.IH [of docs' w'] b show ?case by simp
qed

lemma fallback_loop_stage:
  "list_all fetch_stage (new_events w (snd (fallback_loop env urls docs w)))"
proof (induction urls arbitrary: docs w)
  case Nil
  show ?case by simp
next
  case (Cons url urls)
  obtain docs' w' where b: "fallback_body env url docs w = (docs', w')"
    by (cases "fallback_body env url docs w")
  have "list_all fetch_stage (new_events w w')"
    using fallback_body_stage [of w env url docs] b by simp
  with Cons.IH [of w' docs'] show ?case
    by (subst fallback_loop_step [OF b]) simp
qed

lemma fallback_loop_fallback:
  "filter fallback_event (new_events w (snd (fallback_loop env urls docs w))) =
     map (\<lambda>u. Called (Requests_get u)) urls"
proof (induction urls arbitrary: docs w)
  case Nil
  show ?case by simp
next
  case (Cons url urls)
  obtain docs' w' where b: "fallback_body env url docs w = (docs', w')"
    by (cases "fallback_body env url docs w")
  have "filter fallback_event (new_events w w') = [Called (Requests_get url)]"
    using fallback_body_fallback [of w env url docs] b by simp
  with Cons.IH [of w' docs'] show ?case
    by (subst fallback_loop_step [OF b]) simp
qed

lemma fallback_loop_gets: "gets (new_events w (snd (fallback_loop env urls docs w))) = urls"
proof (induction urls arbitrary: docs w)
  case Nil
  show ?case by simp
next
  case (Cons url urls)
  obtain docs' w' where b: "fallback_body env url docs w = (docs', w')"
    by (cases "fallback_body env url docs w")
  have "gets (new_events w w') = [url]"
    using fallback_body_gets [of w env url docs] b by simp
  with Cons.IH [of w' docs'] show ?case
    by (subst fallback_loop_step [OF b]) simp
qed

lemma fallback_loop_reported:
  "reported (new_events w (snd (fallback_loop env urls docs w))) = urls"
proof (induction urls arbitrary: docs w)
  case Nil
  show ?case by simp
next
  case (Cons url urls)
  obtain docs' w' where b: "fallback_body env url docs w = (docs', w')"
    by (cases "fallback_body env url docs w")
  have "reported (new_events w w') = [url]"
    using fallback_body_reported [of w env url docs] b by simp
  with Cons.IH [of w' docs'] show ?case
    by (subst fallback_loop_step [OF b]) simp
qed

lemma fallback_loop_docs:
  "map metadata (fst (fallback_loop env urls docs w)) =
     map metadata docs @
     map (\<lambda>u. [(U ''source'', u)]) (loaded (new_events w (snd (fallback_loop env urls docs w))))"
proof (induction urls arbitrary: docs w)
  case Nil
  show ?case by simp
next
  case (Cons url urls)
  obtain docs' w' where b: "fallback_body env url docs w = (docs', w')"
    by (cases "fallback_body env url docs w")
  have "map metadata docs' =
      map metadata docs @ map (\<lambda>u. [(U ''source'', u)]) (loaded (new_events w w'))"
    using fallback_body_docs [of env url docs w] b by simp
  with Cons.IH [of docs' w'] show ?case
    by (subst fallback_loop_step [OF b]) (simp add: b)
qed

lemma fallback_bs4_loader_trace:
  "trace (snd (fallback_bs4_loader env urls w)) =
     trace w @ new_events w (snd (fallback_bs4_loader env urls w))"
  unfolding fallback_bs4_loader_def by (rule fallback_loop_trace)

text \<open>The URLs of the concrete runs.\<close>

lemmas url_defs = url_a_def url_b_def url_c_def url_d_def url_e_def

text \<open>The loop at any position of the list, and what one iteration does in each case.\<close>

lemma fallback_loop_append:
  "fallback_loop env (us @ vs) docs w =
     (case fallback_loop env us docs w of (docs1, w1) \<Rightarrow> fallback_loop env vs docs1 w1)"
  by (induction us arbitrary: docs w) (simp_all split: prod.splits)

lemma fallback_loop_at:
  assumes "fallback_loop env us [] w = (docs1, w1)"
  shows "fallback_bs4_loader env (us @ url # vs) w =
     (case fallback_body env url docs1 w1 of (docs2, w2) \<Rightarrow> fallback_loop env vs docs2 w2)"
  using assms by (simp add: fallback_bs4_loader_def fallback_loop_append)

lemma fallback_body_get_raises:
  assumes "requests_get env (trace w) url headers 10 = Inl e"
  shows "fallback_body env url docs w =
     (docs, shown (Error_fetching url e) (failed (Requests_get url) e w))"
  using assms by (simp add: fallback_body_def)

lemma fallback_body_bad_status:
  assumes "requests_get env (trace w) url headers 10 = Inr res" and "status_code res \<noteq> 200"
  shows "fallback_body env url docs w =
     (docs, shown (Failed_to_fetch url (status_code res)) (called (Requests_get url) w))"
  using assms by (simp add: fallback_body_def Let_def)

lemma fallback_body_parse_raises:
  assumes "requests_get env (trace w) url headers 10 = Inr res" and "status_code res = 200"
    and "bs4_paragraphs env (res_text res) = Inl e"
  shows "fallback_body env url docs w =
     (docs, shown (Error_fetching url e) (failed Bs4_parse e (called (Requests_get url) w)))"
  using assms by (simp add: fallback_body_def Let_def)

lemma fallback_body_blank:
  assumes "requests_get env (trace w) url headers 10 = Inr res" and "status_code res = 200"
    and "bs4_paragraphs env (res_text res) = Inr ps"
    and "list_all isspace (join (U '' '') ps)"
  shows "fallback_body env url docs w =
     (docs, shown (No_readable_text url) (called Bs4_parse (called (Requests_get url) w)))"
  using assms by (simp add: fallback_body_def Let_def strip_empty_iff)

lemma fallback_body_loaded:
  assumes "requests_get env (trace w) url headers 10 = Inr res" and "status_code res = 200"
    and "bs4_paragraphs env (res_text res) = Inr ps"
    and "\<not> list_all isspace (join (U '' '') ps)"
  shows "fallback_body env url docs w =
     (docs @ [\<lparr>page_content = join (U '' '') ps, metadata = [(U ''source'', url)]\<rparr>],
      shown (Loaded_bs4 url) (called Bs4_parse (called (Requests_get url) w)))"
  using assms by (simp add: fallback_body_def Let_def strip_empty_iff)

section \<open>The fetch stage\<close>

lemma try_unstructured_loader_trace:
  "trace (snd (try_unstructured_loader env urls w)) =
     trace w @ new_events w (snd (try_unstructured_loader env urls w))"
  by (simp add: try_unstructured_loader_def Let_def new_events_def split: sum.splits)

lemma try_unstructured_loader_folder:
  "folder (snd (try_unstructured_loader env urls w)) = folder w"
  by (simp add: try_unstructured_loader_def Let_def split: sum.splits)

lemma try_unstructured_loader_stage:
  "list_all fetch_stage (new_events w (snd (try_unstructured_loader env urls w)))"
  by (simp add: try_unstructured_loader_def Let_def new_events_def split: sum.splits)

lemma try_unstructured_loader_fallback:
  "filter fallback_event (new_events w (snd (try_unstructured_loader env urls w))) = []"
  by (simp add: try_unstructured_loader_def Let_def new_events_def split: sum.splits)

lemma try_unstructured_loader_data:
  "fst (try_unstructured_loader env urls w) =
     (case unstructured_load env (trace (shown Loading_data w)) urls headers of
        Inl e \<Rightarrow> [] | Inr d \<Rightarrow> d)"
  by (simp add: try_unstructured_loader_def Let_def split: sum.splits)

text \<open>The announced fallback, as a step from the world that step 1 left.\<close>

lemma announced_fallback_events:
  "new_events w1 (snd (fallback_bs4_loader env urls (shown Using_fallback w1))) =
     Shown Using_fallback #
     new_events (shown Using_fallback w1) (snd (fallback_bs4_loader env urls (shown Using_fallback w1)))"
proof -
  have "new_events w1 (snd (fallback_bs4_loader env urls (shown Using_fallback w1))) =
      new_events w1 (shown Using_fallback w1) @
      new_events (shown Using_fallback w1)
        (snd (fallback_bs4_loader env urls (shown Using_fallback w1)))"
    using trace_shown_new fallback_bs4_loader_trace by (rule new_events_trans)
  then show ?thesis by (simp add: new_events_def)
qed

lemma load_data_events:
  "new_events w (snd (load_data env urls w)) =
     new_events w (snd (try_unstructured_loader env urls w)) @
     new_events (snd (try_unstructured_loader env urls w)) (snd (load_data env urls w)) \<and>
   trace (snd (load_data env urls w)) = trace w @ new_events w (snd (load_data env urls w))"
proof -
  obtain data w1 where s: "try_unstructured_loader env urls w = (data, w1)"
    by (cases "try_unstructured_loader env urls w")
  have t1: "trace w1 = trace w @ new_events w w1"
    using try_unstructured_loader_trace [of env urls w] s by simp
  have t2: "trace (snd (load_data env urls w)) = trace w1 @ new_events w1 (snd (load_data env urls w))"
  proof (cases "data = []")
    case True
    have "trace (snd (fallback_bs4_loader env urls (shown Using_fallback w1))) =
        trace w1 @ new_events w1 (snd (fallback_bs4_loader env urls (shown Using_fallback w1)))"
      using trace_shown_new fallback_bs4_loader_trace by (rule trace_trans)
    then show ?thesis using s True by (simp add: load_data_def)
  next
    case False
    then show ?thesis using s by (simp add: load_data_def)
  qed
  have "new_events w (snd (load_data env urls w)) =
      new_events w w1 @ new_events w1 (snd (load_data env urls w))"
    using t1 t2 by (rule new_events_trans)
  moreover have "trace (snd (load_data env urls w)) =
      trace w @ new_events w w1 @ new_events w1 (snd (load_data env urls w))"
    using t1 t2 by simp
  ultimately show ?thesis using s by simp
qed

lemma load_data_folder: "folder (snd (load_data env urls w)) = folder w"
proof -
  obtain data w1 where s: "try_unstructured_loader env urls w = (data, w1)"
    by (cases "try_unstructured_loader env urls w")
  have "folder w1 = folder w"
    using try_unstructured_loader_folder [of env urls w] s by simp
  then show ?thesis
    using s by (simp add: load_data_def fallback_bs4_loader_def fallback_loop_folder)
qed

lemma load_data_stage: "list_all fetch_stage (new_events w (snd (load_data env urls w)))"
proof -
  obtain data w1 where s: "try_unstructured_loader env urls w = (data, w1)"
    by (cases "try_unstructured_loader env urls w")
  have a: "list_all fetch_stage (new_events w w1)"
    using try_unstructured_loader_stage [of w env urls] s by simp
  have b: "list_all fetch_stage (new_events w1 (snd (load_data env urls w)))"
  proof (cases "data = []")
    case True
    have "list_all fetch_stage
        (new_events (shown Using_fallback w1)
          (snd (fallback_bs4_loader env urls (shown Using_fallback w1))))"
      unfolding fallback_bs4_loader_def by (rule fallback_loop_stage)
    then show ?thesis
      using s True by (simp add: load_data_def announced_fallback_events)
  next
    case False
    then show ?thesis using s by (simp add: load_data_def)
  qed
  show ?thesis
    using a b load_data_events [of w env urls] s by simp
qed

lemma load_data_fallback_events:
  "filter fallback_event (new_events w (snd (load_data env urls w))) =
     (if fst (try_unstructured_loader env urls w) = [] then
        Shown Using_fallback # map (\<lambda>u. Called (Requests_get u)) urls
      else [])"
proof -
  obtain data w1 where s: "try_unstructured_loader env urls w = (data, w1)"
    by (cases "try_unstructured_loader env urls w")
  have a: "filter fallback_event (new_events w w1) = []"
    using try_unstructured_loader_fallback [of w env urls] s by simp
  have b: "filter fallback_event (new_events w1 (snd (load_data env urls w))) =
      (if data = [] then Shown Using_fallback # map (\<lambda>u. Called (Requests_get u)) urls else [])"
  proof (cases "data = []")
    case True
    have "filter fallback_event
        (new_events (shown Using_fallback w1)
          (snd (fallback_bs4_loader env urls (shown Using_fallback w1)))) =
        map (\<lambda>u. Called (Requests_get u)) urls"
      unfolding fallback_bs4_loader_def by (rule fallback_loop_fallback)
    then show ?thesis
      using s True by (simp add: load_data_def announced_fallback_events)
  next
    case False
    then show ?thesis using s by (simp add: load_data_def)
  qed
  show ?thesis
    using a b load_data_events [of w env urls] s by simp
qed

section \<open>The indexing stage and the handler\<close>

text \<open>The splitter is the one configured on lines 101-105.\<close>

lemma text_splitter_config:
  "separators text_splitter = [newline @ newline, newline, U ''.'', U '',''] \<and>
   chunk_size text_splitter = 1000 \<and> chunk_overlap text_splitter = 100"
  by (simp add: text_splitter_def)

lemma index_documents_trace:
  "trace (snd (index_documents env data w)) =
     trace w @ new_events w (snd (index_documents env data w))"
  by (simp add: index_documents_def Let_def new_events_def split: sum.splits option.splits)

lemma index_documents_fallback:
  "filter fallback_event (new_events w (snd (index_documents env data w))) = []"
  by (simp add: index_documents_def Let_def new_events_def split: sum.splits option.splits)



text \<open>The handler, by the stages it runs.\<close>

lemma process_url_handler_no_data:
  assumes "urls \<noteq> []" and "fst (load_data env urls w) = []"
  shows "process_url_handler env urls w =
           (None, shown No_content (shown (Loaded_docs 0) (snd (load_data env urls w))))"
  using assms by (simp add: process_url_handler_def Let_def split_beta)

lemma process_url_handler_data:
  assumes "urls \<noteq> []" and "fst (load_data env urls w) \<noteq> []"
  shows "process_url_handler env urls w =
           index_documents env (fst (load_data env urls w))
             (shown (Loaded_docs (length (fst (load_data env urls w)))) (snd (load_data env urls w)))"
  using assms by (simp add: process_url_handler_def Let_def split_beta)

lemma process_url_handler_events:
  assumes "urls \<noteq> []"
  shows "\<exists>evs. new_events w (snd (process_url_handler env urls w)) =
           new_events w (snd (load_data env urls w)) @
           Shown (Loaded_docs (length (fst (load_data env urls w)))) # evs \<and>
         evs = new_events (shown (Loaded_docs (length (fst (load_data env urls w)))) (snd (load_data env urls w)))
                 (snd (process_url_handler env urls w))"
proof -
  let ?w1 = "snd (load_data env urls w)"
  let ?w2 = "shown (Loaded_docs (length (fst (load_data env urls w)))) ?w1"
  let ?w3 = "snd (process_url_handler env urls w)"
  have t1: "trace ?w1 = trace w @ new_events w ?w1"
    using load_data_events [of w env urls] by simp
  have t2: "trace ?w2 = trace ?w1 @ new_events ?w1 ?w2"
    by (rule trace_shown_new)
  have t3: "trace ?w3 = trace ?w2 @ new_events ?w2 ?w3"
  proof (cases "fst (load_data env urls w) = []")
    case True
    then show ?thesis
      using process_url_handler_no_data [OF assms True] by (simp add: new_events_def)
  next
    case False
    show ?thesis
      unfolding process_url_handler_data [OF assms False] by (rule index_documents_trace)
  qed
  have "new_events w ?w3 = new_events w ?w2 @ new_events ?w2 ?w3"
    using trace_trans [OF t1 t2] t3 by (rule new_events_trans)
  moreover have "new_events w ?w2 = new_events w ?w1 @ new_events ?w1 ?w2"
    using t1 t2 by (rule new_events_trans)
  ultimately show ?thesis by (simp add: new_events_def)
qed

lemma handler_tail_fallback:
  assumes "urls \<noteq> []"
  shows "filter fallback_event
           (new_events (shown (Loaded_docs (length (fst (load_data env urls w)))) (snd (load_data env urls w)))
              (snd (process_url_handler env urls w))) = []"
proof (cases "fst (load_data env urls w) = []")
  case True
  then show ?thesis
    using process_url_handler_no_data [OF assms True] by (simp add: new_events_def)
next
  case False
  show ?thesis
    unfolding process_url_handler_data [OF assms False] by (rule index_documents_fallback)
qed






section \<open>Fallback selection\<close>

text \<open>
  C1. For every non-empty list of URLs given to the Process URLs handler: when the structured
  loader returns at least one document, the run neither announces the fallback nor calls
  \<^verbatim>\<open>requests.get\<close>; when the structured loader returns no document, by an empty list or
  by an exception, the run announces the fallback once and calls \<^verbatim>\<open>requests.get\<close> once for
  every URL of the list, in the order of the list.
\<close>

theorem fallback_selection:
  assumes "urls \<noteq> []"
  shows "((\<exists>d. unstructured_load env (trace (shown Loading_data w)) urls headers = Inr d \<and> d \<noteq> []) \<longrightarrow>
            filter fallback_event (new_events w (snd (process_url_handler env urls w))) = []) \<and>
         ((unstructured_load env (trace (shown Loading_data w)) urls headers = Inr [] \<or>
           (\<exists>e. unstructured_load env (trace (shown Loading_data w)) urls headers = Inl e)) \<longrightarrow>
            filter fallback_event (new_events w (snd (process_url_handler env urls w))) =
              Shown Using_fallback # map (\<lambda>u. Called (Requests_get u)) urls)"
proof -
  have "filter fallback_event (new_events w (snd (process_url_handler env urls w))) =
      filter fallback_event (new_events w (snd (load_data env urls w)))"
    using process_url_handler_events [OF assms, of w env] handler_tail_fallback [OF assms, of env w]
    by auto
  then show ?thesis
    by (auto simp add: load_data_fallback_events try_unstructured_loader_data)
qed

theorem fallback_selection_witness:
  "[U ''https://example.com/a''] \<noteq> [] \<and>
   (\<exists>d. unstructured_load env_ok (trace (shown Loading_data w_fresh)) [U ''https://example.com/a''] headers = Inr d \<and> d \<noteq> []) \<and>
   filter fallback_event
     (new_events w_fresh (snd (process_url_handler env_ok [U ''https://example.com/a''] w_fresh))) = [] \<and>
   (\<exists>e. unstructured_load env_down (trace (shown Loading_data w_fresh)) [U ''https://example.com/a''] headers = Inl e) \<and>
   filter fallback_event
     (new_events w_fresh (snd (process_url_handler env_down [U ''https://example.com/a''] w_fresh))) =
     [Shown Using_fallback, Called (Requests_get (U ''https://example.com/a''))]"
  using fallback_selection [of "[U ''https://example.com/a'']" env_ok w_fresh]
    fallback_selection [of "[U ''https://example.com/a'']" env_down w_fresh]
  by (simp add: env_ok_def env_down_def)

section \<open>No document at all\<close>

text \<open>
  C2. When the structured loader and the fallback together yield no document, the handler
  shows the number of loaded documents and the error message and returns: nothing of
  chunking, embedding, index construction or saving is called, and the index folder is as
  it was.
\<close>

theorem no_documents_halts:
  assumes "urls \<noteq> []" and "fst (load_data env urls w) = []"
  shows "process_url_handler env urls w =
           (None, shown No_content (shown (Loaded_docs 0) (snd (load_data env urls w)))) \<and>
         fst (render No_content) = St_error \<and>
         filter indexing (new_events w (snd (process_url_handler env urls w))) = [] \<and>
         folder (snd (process_url_handler env urls w)) = folder w"
proof -
  have h: "process_url_handler env urls w =
      (None, shown No_content (shown (Loaded_docs 0) (snd (load_data env urls w))))"
    using assms by (rule process_url_handler_no_data)
  have "filter indexing (new_events w (snd (load_data env urls w))) = []"
    using load_data_stage by (rule fetch_stage_filter_indexing)
  moreover have "new_events w (snd (process_url_handler env urls w)) =
      new_events w (snd (load_data env urls w)) @ [Shown (Loaded_docs 0), Shown No_content]"
    using process_url_handler_events [OF assms(1), of w env] assms(2) h
    by (simp add: new_events_def)
  ultimately have "filter indexing (new_events w (snd (process_url_handler env urls w))) = []"
    by simp
  then show ?thesis
    using h by (simp add: load_data_folder)
qed

theorem no_documents_halts_witness:
  "[U ''https://example.com/a''] \<noteq> [] \<and>
   fst (load_data env_down [U ''https://example.com/a''] w_indexed) = [] \<and>
   fst (process_url_handler env_down [U ''https://example.com/a''] w_indexed) = None \<and>
   filter indexing
     (new_events w_indexed (snd (process_url_handler env_down [U ''https://example.com/a''] w_indexed))) = [] \<and>
   folder (snd (process_url_handler env_down [U ''https://example.com/a''] w_indexed)) = Some ()"
proof -
  have d: "fst (load_data env_down [U ''https://example.com/a''] w_indexed) = []"
    by (simp add: load_data_def try_unstructured_loader_def fallback_bs4_loader_def
        fallback_body_def env_down_def env_ok_def Let_def)
  have n: "[U ''https://example.com/a''] \<noteq> []"
    by simp
  note t = no_documents_halts [OF n d]
  have "fst (process_url_handler env_down [U ''https://example.com/a''] w_indexed) = None"
    using t [THEN conjunct1] by simp
  moreover have "folder w_indexed = Some ()"
    by (simp add: w_indexed_def)
  ultimately show ?thesis
    using n d t by metis
qed

section \<open>A question without an index\<close>

text \<open>
  C3. A non-empty question asked while the index folder does not exist is answered by the
  error message \<^verbatim>\<open>FAISS index not found. Please process URLs first.\<close> alone: the handler
  returns without an exception, calls no library, builds nothing and leaves the folder
  absent.
\<close>

theorem query_without_index:
  assumes "query \<noteq> []" and "folder w = None"
  shows "query_handler env llm query w = (None, shown Index_not_found w) \<and>
         render Index_not_found =
           (St_error, [U ''FAISS index not found. Please process URLs first.'']) \<and>
         new_events w (snd (query_handler env llm query w)) = [Shown Index_not_found] \<and>
         folder (snd (query_handler env llm query w)) = folder w"
  using assms by (simp add: query_handler_def new_events_def)

theorem query_without_index_witness:
  "U ''What is X?'' \<noteq> [] \<and> folder w_fresh = None \<and>
   query_handler env_ok () (U ''What is X?'') w_fresh = (None, shown Index_not_found w_fresh)"
  using query_without_index [of "U ''What is X?''" w_fresh env_ok "()"]
  by (simp add: w_fresh_def)

section \<open>The Hello World scenario\<close>

text \<open>
  C6. For the single URL \<^verbatim>\<open>https://example.com/a\<close>, when the structured loader raises and
  the page is served (status 200) with exactly the two paragraph texts \<^verbatim>\<open>Hello.\<close> and
  \<^verbatim>\<open>World.\<close>, the fallback loader is what loads the data, and it yields exactly one document,
  with content \<^verbatim>\<open>Hello. World.\<close> and source \<^verbatim>\<open>https://example.com/a\<close>.
\<close>

theorem hello_world_scenario:
  assumes "unstructured_load env (trace (shown Loading_data w)) [U ''https://example.com/a''] headers = Inl e"
    and "requests_get env
           (trace (shown Using_fallback
              (snd (try_unstructured_loader env [U ''https://example.com/a''] w))))
           (U ''https://example.com/a'') headers 10 = Inr res"
    and "status_code res = 200"
    and "bs4_paragraphs env (res_text res) = Inr [U ''Hello.'', U ''World.'']"
  shows "load_data env [U ''https://example.com/a''] w =
           fallback_bs4_loader env [U ''https://example.com/a'']
             (shown Using_fallback (snd (try_unstructured_loader env [U ''https://example.com/a''] w))) \<and>
         fst (load_data env [U ''https://example.com/a''] w) =
           [\<lparr>page_content = U ''Hello. World.'',
             metadata = [(U ''source'', U ''https://example.com/a'')]\<rparr>]"
proof -
  let ?urls = "[U ''https://example.com/a'']"
  let ?w1 = "shown Using_fallback (snd (try_unstructured_loader env ?urls w))"
  have "fst (try_unstructured_loader env ?urls w) = []"
    using assms(1) by (simp add: try_unstructured_loader_data)
  then have l: "load_data env ?urls w = fallback_bs4_loader env ?urls ?w1"
    by (simp add: load_data_def split_beta)
  have s: "strip (U ''Hello. World.'') \<noteq> []"
    by (simp add: strip_def isspace_def)
  have "fst (fallback_bs4_loader env ?urls ?w1) =
      [\<lparr>page_content = U ''Hello. World.'', metadata = [(U ''source'', U ''https://example.com/a'')]\<rparr>]"
    using assms(2,3,4) s by (simp add: fallback_bs4_loader_def fallback_body_def Let_def)
  with l show ?thesis by simp
qed

theorem hello_world_scenario_witness:
  "unstructured_load env_hello (trace (shown Loading_data w_fresh)) [U ''https://example.com/a''] headers =
     Inl (U ''no loader'') \<and>
   requests_get env_hello
     (trace (shown Using_fallback (snd (try_unstructured_loader env_hello [U ''https://example.com/a''] w_fresh))))
     (U ''https://example.com/a'') headers 10 = Inr res_hello \<and>
   status_code res_hello = 200 \<and>
   bs4_paragraphs env_hello (res_text res_hello) = Inr [U ''Hello.'', U ''World.''] \<and>
   fst (load_data env_hello [U ''https://example.com/a''] w_fresh) =
     [\<lparr>page_content = U ''Hello. World.'', metadata = [(U ''source'', U ''https://example.com/a'')]\<rparr>]"
proof -
  have h1: "unstructured_load env_hello (trace (shown Loading_data w_fresh))
      [U ''https://example.com/a''] headers = Inl (U ''no loader'')"
    by (simp add: env_hello_def env_down_def env_ok_def)
  have h2: "requests_get env_hello
      (trace (shown Using_fallback
         (snd (try_unstructured_loader env_hello [U ''https://example.com/a''] w_fresh))))
      (U ''https://example.com/a'') headers 10 = Inr res_hello"
    by (simp add: env_hello_def)
  have h3: "status_code res_hello = 200"
    by (simp add: res_hello_def)
  have h4: "bs4_paragraphs env_hello (res_text res_hello) = Inr [U ''Hello.'', U ''World.'']"
    by (simp add: env_hello_def)
  show ?thesis
    using hello_world_scenario [OF h1 h2 h3 h4] h1 h2 h3 h4 by blast
qed

section \<open>Failures of single URLs\<close>

text \<open>
  C7. Let the fallback loader have worked through the URLs \<open>us\<close> and reach \<open>url\<close>, with
  \<open>vs\<close> still to come. If \<^verbatim>\<open>requests.get\<close> raises, if the status is not 200, if the parser
  raises, or if the paragraph text is empty or only whitespace, then the loader shows
  exactly the error or warning of that case for \<open>url\<close>, adds no document, and goes on
  with the loop over \<open>vs\<close> from there; only a page with text is reported as loaded and
  adds its document. Over the whole list, and over any rest of it, \<^verbatim>\<open>requests.get\<close> is
  called for every URL in order, exactly one status message is shown per URL, naming that
  URL, and the documents returned are those of the URLs reported as loaded, each with
  its own URL as source.
\<close>

theorem fallback_continues_after_failures:
  assumes "fallback_loop env us [] w = (docs1, w1)"
  shows
   "gets (new_events w (snd (fallback_bs4_loader env urls w))) = urls \<and>
    reported (new_events w (snd (fallback_bs4_loader env urls w))) = urls \<and>
    map metadata (fst (fallback_bs4_loader env urls w)) =
      map (\<lambda>u. [(U ''source'', u)]) (loaded (new_events w (snd (fallback_bs4_loader env urls w)))) \<and>
    (requests_get env (trace w1) url headers 10 = Inl e \<longrightarrow>
       fst (render (Error_fetching url e)) = St_error \<and>
       fallback_bs4_loader env (us @ url # vs) w =
         fallback_loop env vs docs1
           (shown (Error_fetching url e) (failed (Requests_get url) e w1))) \<and>
    (requests_get env (trace w1) url headers 10 = Inr res \<and> status_code res \<noteq> 200 \<longrightarrow>
       fst (render (Failed_to_fetch url (status_code res))) = St_warning \<and>
       fallback_bs4_loader env (us @ url # vs) w =
         fallback_loop env vs docs1
           (shown (Failed_to_fetch url (status_code res)) (called (Requests_get url) w1))) \<and>
    (requests_get env (trace w1) url headers 10 = Inr res \<and> status_code res = 200 \<and>
     bs4_paragraphs env (res_text res) = Inl e \<longrightarrow>
       fst (render (Error_fetching url e)) = St_error \<and>
       fallback_bs4_loader env (us @ url # vs) w =
         fallback_loop env vs docs1
           (shown (Error_fetching url e) (failed Bs4_parse e (called (Requests_get url) w1)))) \<and>
    (requests_get env (trace w1) url headers 10 = Inr res \<and> status_code res = 200 \<and>
     bs4_paragraphs env (res_text res) = Inr ps \<and> list_all isspace (join (U '' '') ps) \<longrightarrow>
       fst (render (No_readable_text url)) = St_warning \<and>
       fallback_bs4_loader env (us @ url # vs) w =
         fallback_loop env vs docs1
           (shown (No_readable_text url) (called Bs4_parse (called (Requests_get url) w1)))) \<and>
    (requests_get env (trace w1) url headers 10 = Inr res \<and> status_code res = 200 \<and>
     bs4_paragraphs env (res_text res) = Inr ps \<and> \<not> list_all isspace (join (U '' '') ps) \<longrightarrow>
       fst (render (Loaded_bs4 url)) = St_success \<and>
       fallback_bs4_loader env (us @ url # vs) w =
         fallback_loop env vs
           (docs1 @ [\<lparr>page_content = join (U '' '') ps, metadata = [(U ''source'', url)]\<rparr>])
           (shown (Loaded_bs4 url) (called Bs4_parse (called (Requests_get url) w1)))) \<and>
    gets (new_events w2 (snd (fallback_loop env vs docs2 w2))) = vs \<and>
    reported (new_events w2 (snd (fallback_loop env vs docs2 w2))) = vs \<and>
    map metadata (fst (fallback_loop env vs docs2 w2)) =
      map metadata docs2 @
      map (\<lambda>u. [(U ''source'', u)]) (loaded (new_events w2 (snd (fallback_loop env vs docs2 w2))))"
proof -
  note at = fallback_loop_at [OF assms, of url vs]
  have g: "gets (new_events w (snd (fallback_bs4_loader env urls w))) = urls \<and>
      reported (new_events w (snd (fallback_bs4_loader env urls w))) = urls \<and>
      map metadata (fst (fallback_bs4_loader env urls w)) =
        map (\<lambda>u. [(U ''source'', u)]) (loaded (new_events w (snd (fallback_bs4_loader env urls w))))"
    using fallback_loop_docs [of env urls "[]" w]
    by (simp add: fallback_bs4_loader_def fallback_loop_gets fallback_loop_reported)
  have c1: "requests_get env (trace w1) url headers 10 = Inl e \<longrightarrow>
       fst (render (Error_fetching url e)) = St_error \<and>
       fallback_bs4_loader env (us @ url # vs) w =
         fallback_loop env vs docs1
           (shown (Error_fetching url e) (failed (Requests_get url) e w1))"
    by (simp add: at fallback_body_get_raises)
  have c2: "requests_get env (trace w1) url headers 10 = Inr res \<and> status_code res \<noteq> 200 \<longrightarrow>
       fst (render (Failed_to_fetch url (status_code res))) = St_warning \<and>
       fallback_bs4_loader env (us @ url # vs) w =
         fallback_loop env vs docs1
           (shown (Failed_to_fetch url (status_code res)) (called (Requests_get url) w1))"
    by (simp add: at fallback_body_bad_status)
  have c3: "requests_get env (trace w1) url headers 10 = Inr res \<and> status_code res = 200 \<and>
     bs4_paragraphs env (res_text res) = Inl e \<longrightarrow>
       fst (render (Error_fetching url e)) = St_error \<and>
       fallback_bs4_loader env (us @ url # vs) w =
         fallback_loop env vs docs1
           (shown (Error_fetching url e) (failed Bs4_parse e (called (Requests_get url) w1)))"
    by (simp add: at fallback_body_parse_raises)
  have c4: "requests_get env (trace w1) url headers 10 = Inr res \<and> status_code res = 200 \<and>
     bs4_paragraphs env (res_text res) = Inr ps \<and> list_all isspace (join (U '' '') ps) \<longrightarrow>
       fst (render (No_readable_text url)) = St_warning \<and>
       fallback_bs4_loader env (us @ url # vs) w =
         fallback_loop env vs docs1
           (shown (No_readable_text url) (called Bs4_parse (called (Requests_get url) w1)))"
    by (simp add: at fallback_body_blank)
  have c5: "requests_get env (trace w1) url headers 10 = Inr res \<and> status_code res = 200 \<and>
     bs4_paragraphs env (res_text res) = Inr ps \<and> \<not> list_all isspace (join (U '' '') ps) \<longrightarrow>
       fst (render (Loaded_bs4 url)) = St_success \<and>
       fallback_bs4_loader env (us @ url # vs) w =
         fallback_loop env vs
           (docs1 @ [\<lparr>page_content = join (U '' '') ps, metadata = [(U ''source'', url)]\<rparr>])
           (shown (Loaded_bs4 url) (called Bs4_parse (called (Requests_get url) w1)))"
    by (simp add: at fallback_body_loaded)
  have r: "gets (new_events w2 (snd (fallback_loop env vs docs2 w2))) = vs \<and>
    reported (new_events w2 (snd (fallback_loop env vs docs2 w2))) = vs \<and>
    map metadata (fst (fallback_loop env vs docs2 w2)) =
      map metadata docs2 @
      map (\<lambda>u. [(U ''source'', u)]) (loaded (new_events w2 (snd (fallback_loop env vs docs2 w2))))"
    by (simp add: fallback_loop_gets fallback_loop_reported fallback_loop_docs)
  show ?thesis
    using g c1 c2 c3 c4 c5 r by blast
qed

theorem fallback_continues_after_failures_witness:
  "requests_get env_failing (trace w_fresh) url_a headers 10 = Inl (U ''timeout'') \<and>
   fallback_bs4_loader env_failing ([] @ url_a # [url_b, url_c, url_d, url_e]) w_fresh =
     fallback_loop env_failing [url_b, url_c, url_d, url_e] []
       (shown (Error_fetching url_a (U ''timeout''))
          (failed (Requests_get url_a) (U ''timeout'') w_fresh)) \<and>
   requests_get env_failing (trace (snd (fallback_loop env_failing [url_a] [] w_fresh)))
     url_b headers 10 = Inr res_missing \<and>
   status_code res_missing \<noteq> 200 \<and>
   fallback_bs4_loader env_failing ([url_a] @ url_b # [url_c, url_d, url_e]) w_fresh =
     fallback_loop env_failing [url_c, url_d, url_e]
       (fst (fallback_loop env_failing [url_a] [] w_fresh))
       (shown (Failed_to_fetch url_b (status_code res_missing))
          (called (Requests_get url_b) (snd (fallback_loop env_failing [url_a] [] w_fresh)))) \<and>
   requests_get env_failing (trace (snd (fallback_loop env_failing [url_a, url_b] [] w_fresh)))
     url_c headers 10 = Inr res_broken \<and>
   status_code res_broken = 200 \<and>
   bs4_paragraphs env_failing (res_text res_broken) = Inl (U ''parse error'') \<and>
   fallback_bs4_loader env_failing ([url_a, url_b] @ url_c # [url_d, url_e]) w_fresh =
     fallback_loop env_failing [url_d, url_e]
       (fst (fallback_loop env_failing [url_a, url_b] [] w_fresh))
       (shown (Error_fetching url_c (U ''parse error''))
          (failed Bs4_parse (U ''parse error'')
             (called (Requests_get url_c)
                (snd (fallback_loop env_failing [url_a, url_b] [] w_fresh))))) \<and>
   requests_get env_failing
     (trace (snd (fallback_loop env_failing [url_a, url_b, url_c] [] w_fresh)))
     url_d headers 10 = Inr res_blank \<and>
   status_code res_blank = 200 \<and>
   bs4_paragraphs env_failing (res_text res_blank) = Inr [U '' ''] \<and>
   list_all isspace (join (U '' '') [U '' '']) \<and>
   fallback_bs4_loader env_failing ([url_a, url_b, url_c] @ url_d # [url_e]) w_fresh =
     fallback_loop env_failing [url_e]
       (fst (fallback_loop env_failing [url_a, url_b, url_c] [] w_fresh))
       (shown (No_readable_text url_d)
          (called Bs4_parse
             (called (Requests_get url_d)
                (snd (fallback_loop env_failing [url_a, url_b, url_c] [] w_fresh))))) \<and>
   new_events w_fresh
     (snd (fallback_bs4_loader env_failing [url_a, url_b, url_c, url_d, url_e] w_fresh)) =
     [Called (Requests_get url_a),
      Failed (Requests_get url_a) (U ''timeout''),
      Shown (Error_fetching url_a (U ''timeout'')),
      Called (Requests_get url_b),
      Shown (Failed_to_fetch url_b 404),
      Called (Requests_get url_c),
      Called Bs4_parse,
      Failed Bs4_parse (U ''parse error''),
      Shown (Error_fetching url_c (U ''parse error'')),
      Called (Requests_get url_d),
      Called Bs4_parse,
      Shown (No_readable_text url_d),
      Called (Requests_get url_e),
      Called Bs4_parse,
      Shown (Loaded_bs4 url_e)] \<and>
   fst (fallback_bs4_loader env_failing [url_a, url_b, url_c, url_d, url_e] w_fresh) =
     [\<lparr>page_content = U ''Hello. World.'', metadata = [(U ''source'', url_e)]\<rparr>]"
proof -
  have p: "\<And>us. fallback_loop env_failing us [] w_fresh =
      (fst (fallback_loop env_failing us [] w_fresh), snd (fallback_loop env_failing us [] w_fresh))"
    by simp
  have a: "requests_get env_failing (trace w_fresh) url_a headers 10 = Inl (U ''timeout'')"
    by (simp add: env_failing_def)
  have b: "requests_get env_failing (trace (snd (fallback_loop env_failing [url_a] [] w_fresh)))
      url_b headers 10 = Inr res_missing"
    by (simp add: env_failing_def url_defs)
  have b': "status_code res_missing \<noteq> 200"
    by (simp add: res_missing_def)
  have c: "requests_get env_failing (trace (snd (fallback_loop env_failing [url_a, url_b] [] w_fresh)))
      url_c headers 10 = Inr res_broken"
    by (simp add: env_failing_def url_defs)
  have c': "status_code res_broken = 200"
    by (simp add: res_broken_def)
  have c'': "bs4_paragraphs env_failing (res_text res_broken) = Inl (U ''parse error'')"
    by (simp add: env_failing_def)
  have d: "requests_get env_failing
      (trace (snd (fallback_loop env_failing [url_a, url_b, url_c] [] w_fresh)))
      url_d headers 10 = Inr res_blank"
    by (simp add: env_failing_def url_defs)
  have d': "status_code res_blank = 200"
    by (simp add: res_blank_def)
  have d'': "bs4_paragraphs env_failing (res_text res_blank) = Inr [U '' '']"
    by (simp add: env_failing_def res_blank_def res_broken_def)
  have d''': "list_all isspace (join (U '' '') [U '' ''])"
    by (simp add: isspace_def)
  have e0: "fallback_loop env_failing [] [] w_fresh = ([], w_fresh)"
    by simp
  note ta = fallback_continues_after_failures [OF e0, of _ url_a "U ''timeout''"
      "[url_b, url_c, url_d, url_e]"]
  note tb = fallback_continues_after_failures [OF p [of "[url_a]"], of _ url_b _
      "[url_c, url_d, url_e]" res_missing]
  note tc = fallback_continues_after_failures [OF p [of "[url_a, url_b]"], of _ url_c
      "U ''parse error''" "[url_d, url_e]" res_broken]
  note td = fallback_continues_after_failures [OF p [of "[url_a, url_b, url_c]"], of _ url_d _
      "[url_e]" res_blank "[U '' '']"]
  have s: "strip (U ''Hello. World.'') \<noteq> []" "strip (U '' '') = []"
    by (simp_all add: strip_def isspace_def)
  have r: "fallback_bs4_loader env_failing [url_a, url_b, url_c, url_d, url_e] w_fresh =
      ([\<lparr>page_content = U ''Hello. World.'', metadata = [(U ''source'', url_e)]\<rparr>],
       \<lparr>folder = None,
        trace =
          [Called (Requests_get url_a),
           Failed (Requests_get url_a) (U ''timeout''),
           Shown (Error_fetching url_a (U ''timeout'')),
           Called (Requests_get url_b),
           Shown (Failed_to_fetch url_b 404),
           Called (Requests_get url_c),
           Called Bs4_parse,
           Failed Bs4_parse (U ''parse error''),
           Shown (Error_fetching url_c (U ''parse error'')),
           Called (Requests_get url_d),
           Called Bs4_parse,
           Shown (No_readable_text url_d),
           Called (Requests_get url_e),
           Called Bs4_parse,
           Shown (Loaded_bs4 url_e)]\<rparr>)"
    using s
    by (simp add: fallback_bs4_loader_def fallback_body_def env_failing_def res_missing_def
        res_broken_def res_blank_def res_hello_def w_fresh_def shown_def called_def failed_def
        Let_def url_defs)
  have n: "new_events w_fresh
      (snd (fallback_bs4_loader env_failing [url_a, url_b, url_c, url_d, url_e] w_fresh)) =
      trace (snd (fallback_bs4_loader env_failing [url_a, url_b, url_c, url_d, url_e] w_fresh))"
    by (simp add: new_events_def w_fresh_def)
  have fin: "new_events w_fresh
     (snd (fallback_bs4_loader env_failing [url_a, url_b, url_c, url_d, url_e] w_fresh)) =
     [Called (Requests_get url_a),
      Failed (Requests_get url_a) (U ''timeout''),
      Shown (Error_fetching url_a (U ''timeout'')),
      Called (Requests_get url_b),
      Shown (Failed_to_fetch url_b 404),
      Called (Requests_get url_c),
      Called Bs4_parse,
      Failed Bs4_parse (U ''parse error''),
      Shown (Error_fetching url_c (U ''parse error'')),
      Called (Requests_get url_d),
      Called Bs4_parse,
      Shown (No_readable_text url_d),
      Called (Requests_get url_e),
      Called Bs4_parse,
      Shown (Loaded_bs4 url_e)] \<and>
   fst (fallback_bs4_loader env_failing [url_a, url_b, url_c, url_d, url_e] w_fresh) =
     [\<lparr>page_content = U ''Hello. World.'', metadata = [(U ''source'', url_e)]\<rparr>]"
  proof -
    have "trace (snd (fallback_bs4_loader env_failing [url_a, url_b, url_c, url_d, url_e] w_fresh)) =
        trace (snd ([\<lparr>page_content = U ''Hello. World.'', metadata = [(U ''source'', url_e)]\<rparr>],
          \<lparr>folder = (None :: unit option),
           trace =
             [Called (Requests_get url_a),
              Failed (Requests_get url_a) (U ''timeout''),
              Shown (Error_fetching url_a (U ''timeout'')),
              Called (Requests_get url_b),
              Shown (Failed_to_fetch url_b 404),
              Called (Requests_get url_c),
              Called Bs4_parse,
              Failed Bs4_parse (U ''parse error''),
              Shown (Error_fetching url_c (U ''parse error'')),
              Called (Requests_get url_d),
              Called Bs4_parse,
              Shown (No_readable_text url_d),
              Called (Requests_get url_e),
              Called Bs4_parse,
              Shown (Loaded_bs4 url_e)]\<rparr>))"
      by (simp only: r)
    moreover have "fst (fallback_bs4_loader env_failing [url_a, url_b, url_c, url_d, url_e] w_fresh) =
        [\<lparr>page_content = U ''Hello. World.'', metadata = [(U ''source'', url_e)]\<rparr>]"
      by (simp only: r fst_conv)
    ultimately show ?thesis
      by (simp add: n)
  qed
  note fin1 = fin [THEN conjunct1] and fin2 = fin [THEN conjunct2]
  have ea: "fallback_bs4_loader env_failing ([] @ url_a # [url_b, url_c, url_d, url_e]) w_fresh =
     fallback_loop env_failing [url_b, url_c, url_d, url_e] []
       (shown (Error_fetching url_a (U ''timeout''))
          (failed (Requests_get url_a) (U ''timeout'') w_fresh))"
    using ta a by blast
  have eb: "fallback_bs4_loader env_failing ([url_a] @ url_b # [url_c, url_d, url_e]) w_fresh =
     fallback_loop env_failing [url_c, url_d, url_e]
       (fst (fallback_loop env_failing [url_a] [] w_fresh))
       (shown (Failed_to_fetch url_b (status_code res_missing))
          (called (Requests_get url_b) (snd (fallback_loop env_failing [url_a] [] w_fresh))))"
    using tb b b' by blast
  have ec: "fallback_bs4_loader env_failing ([url_a, url_b] @ url_c # [url_d, url_e]) w_fresh =
     fallback_loop env_failing [url_d, url_e]
       (fst (fallback_loop env_failing [url_a, url_b] [] w_fresh))
       (shown (Error_fetching url_c (U ''parse error''))
          (failed Bs4_parse (U ''parse error'')
             (called (Requests_get url_c)
                (snd (fallback_loop env_failing [url_a, url_b] [] w_fresh)))))"
    using tc c c' c'' by blast
  have ed: "fallback_bs4_loader env_failing ([url_a, url_b, url_c] @ url_d # [url_e]) w_fresh =
     fallback_loop env_failing [url_e]
       (fst (fallback_loop env_failing [url_a, url_b, url_c] [] w_fresh))
       (shown (No_readable_text url_d)
          (called Bs4_parse
             (called (Requests_get url_d)
                (snd (fallback_loop env_failing [url_a, url_b, url_c] [] w_fresh)))))"
    using td d d' d'' d''' by blast
  show ?thesis
    by (intro conjI) (fact a ea b b' eb c c' c'' ec d d' d'' d''' ed fin1 fin2)+
qed

section \<open>A failing index construction\<close>




section \<open>Blank URL fields\<close>

text \<open>
  C9. When each of the three URL fields is empty or holds only whitespace, no URL is
  collected and the handler shows \<^verbatim>\<open>Please enter at least one valid URL.\<close> and nothing
  else: no library is called and the index folder is as it was. Whatever the fields
  hold, every collected URL is the stripped value of a field, is not empty and neither
  starts nor ends with whitespace.
\<close>

theorem blank_urls_rejected:
  assumes "\<forall>i\<in>{1, 2, 3}. list_all isspace (text_input i)"
  shows "sidebar_urls text_input = [] \<and>
         process_url_handler env (sidebar_urls text_input) w = (None, shown No_valid_url w) \<and>
         render No_valid_url = (St_error, [U ''Please enter at least one valid URL.'']) \<and>
         new_events w (snd (process_url_handler env (sidebar_urls text_input) w)) = [Shown No_valid_url] \<and>
         folder (snd (process_url_handler env (sidebar_urls text_input) w)) = folder w \<and>
         (\<forall>u\<in>set (sidebar_urls g).
            (\<exists>i\<in>{1, 2, 3}. u = strip (g i)) \<and> u \<noteq> [] \<and> \<not> isspace (hd u) \<and> \<not> isspace (last u))"
proof -
  have e: "sidebar_urls text_input = []"
    using assms by (simp add: sidebar_urls_unfold strip_empty_iff)
  have "\<forall>u\<in>set (sidebar_urls g).
      (\<exists>i\<in>{1, 2, 3}. u = strip (g i)) \<and> u \<noteq> [] \<and> \<not> isspace (hd u) \<and> \<not> isspace (last u)"
    by (auto simp add: sidebar_urls_unfold strip_hd strip_last split: if_splits)
  then show ?thesis
    using e by (simp add: process_url_handler_def new_events_def)
qed

theorem blank_urls_rejected_witness:
  "list_all isspace (blank_inputs 1) \<and> list_all isspace (blank_inputs 2) \<and>
   list_all isspace (blank_inputs 3) \<and>
   process_url_handler env_ok (sidebar_urls blank_inputs) w_indexed = (None, shown No_valid_url w_indexed) \<and>
   U ''https://example.com/a'' \<in> set (sidebar_urls padded_inputs) \<and>
   \<not> isspace (hd (U ''https://example.com/a'')) \<and> \<not> isspace (last (U ''https://example.com/a''))"
proof -
  have h: "\<forall>i\<in>{1, 2, 3}. list_all isspace (blank_inputs i)"
    by (simp add: blank_inputs_def isspace_def)
  have m: "U ''https://example.com/a'' \<in> set (sidebar_urls padded_inputs)"
    by (simp add: sidebar_urls_unfold padded_inputs_def strip_def isspace_def)
  note t = blank_urls_rejected [OF h, of env_ok w_indexed padded_inputs]
  have a: "process_url_handler env_ok (sidebar_urls blank_inputs) w_indexed =
      (None, shown No_valid_url w_indexed)"
    using t by blast
  have b: "\<not> isspace (hd (U ''https://example.com/a'')) \<and>
      \<not> isspace (last (U ''https://example.com/a''))"
    using t m by blast
  have "list_all isspace (blank_inputs 1)" and "list_all isspace (blank_inputs 2)"
    and "list_all isspace (blank_inputs 3)"
    using h by blast+
  then show ?thesis
    using a b m by blast
qed

section \<open>The query handler only reads\<close>

text \<open>
  C10. For every question and every behaviour of the libraries, whether the query is
  answered, stops at the missing index or ends with an exception, the index folder after
  the query handler is the folder before it, and \<^verbatim>\<open>save_local\<close> is not called.
\<close>

theorem query_leaves_folder:
  "folder (snd (query_handler env llm query w)) = folder w \<and>
   filter saving (new_events w (snd (query_handler env llm query w))) = []"
  by (simp add: query_handler_def Let_def new_events_def split: option.splits sum.splits)

theorem query_leaves_folder_witness:
  "fst (query_handler env_ok () (U ''What is X?'') w_indexed) = None \<and>
   folder (snd (query_handler env_ok () (U ''What is X?'') w_indexed)) = Some () \<and>
   fst (query_handler env_no_answer () (U ''What is X?'') w_indexed) = Some (U ''service unavailable'') \<and>
   folder (snd (query_handler env_no_answer () (U ''What is X?'') w_indexed)) = Some () \<and>
   fst (query_handler env_ok () (U ''What is X?'') w_fresh) = None \<and>
   folder (snd (query_handler env_ok () (U ''What is X?'') w_fresh)) = None"
proof -
  have "fst (query_handler env_ok () (U ''What is X?'') w_indexed) = None"
    by (simp add: query_handler_def env_ok_def w_indexed_def Let_def)
  moreover have "fst (query_handler env_no_answer () (U ''What is X?'') w_indexed) =
      Some (U ''service unavailable'')"
    by (simp add: query_handler_def env_no_answer_def env_ok_def w_indexed_def Let_def)
  moreover have "fst (query_handler env_ok () (U ''What is X?'') w_fresh) = None"
    by (simp add: query_handler_def w_fresh_def)
  moreover have "folder w_indexed = Some ()" and "folder w_fresh = None"
    by (simp_all add: w_indexed_def w_fresh_def)
  ultimately show ?thesis
    using query_leaves_folder [of env_ok "()" "U ''What is X?''" w_indexed]
      query_leaves_folder [of env_no_answer "()" "U ''What is X?''" w_indexed]
      query_leaves_folder [of env_ok "()" "U ''What is X?''" w_fresh]
    by simp
qed

end

